theory Spec2Isabelle
  imports Main
begin

section \<open>The streaming relay of server.js\<close>

text \<open>
  The server is one Express application: a JSON body parser, a static page on
  \<^verbatim>\<open>GET /\<close>, the relay on \<^verbatim>\<open>POST /ask\<close> and a catch-all error middleware.
  Every statement of the source with an effect outside the handler (a header set, a
  call to the provider, a write, a log line) becomes one element of an effect trace,
  in program order; the response the client receives is the trace applied to a fresh
  response. What the environment answers (the parsed body, the provider's stream, the
  process environment) is an input of the model.
\<close>

subsection \<open>JavaScript values\<close>

text \<open>
  The values \<^verbatim>\<open>JSON.parse\<close> produces, and \<^verbatim>\<open>undefined\<close> for a property that is
  absent. Number literals are kept as integers: the code only tests a number for
  truthiness and passes it on. Strings are kept as byte lists; the code only tests a
  string for emptiness and passes it on.
\<close>

datatype jsval =
    JUndefined
  | JNull
  | JBool bool
  | JNum int
  | JStr string
  | JArr "jsval list"
  | JObj "(string \<times> jsval) list"

text \<open>JavaScript's ToBoolean, as used by \<^verbatim>\<open>!x\<close>, \<^verbatim>\<open>if (x)\<close> and \<^verbatim>\<open>x || y\<close>.\<close>

fun truthy :: "jsval \<Rightarrow> bool" where
  "truthy JUndefined = False"
| "truthy JNull = False"
| "truthy (JBool b) = b"
| "truthy (JNum n) = (n \<noteq> 0)"
| "truthy (JStr s) = (s \<noteq> [])"
| "truthy (JArr xs) = True"
| "truthy (JObj kvs) = True"

text \<open>\<^verbatim>\<open>x || y\<close>: the left operand when it is truthy, the right one otherwise.\<close>

definition js_or :: "jsval \<Rightarrow> jsval \<Rightarrow> jsval" where
  "js_or x y = (if truthy x then x else y)"

subsection \<open>Errors, requests to the provider, what is written downstream\<close>

datatype error =
    TypeError
  | UpstreamError string
  | ParseError
  | FileError

datatype role = System | User

text \<open>
  \<^verbatim>\<open>{ type: 'text', text: t }\<close> and \<^verbatim>\<open>{ type: 'image_url', image_url: { url: u } }\<close>.
\<close>

datatype content_part = TextPart jsval | ImageUrlPart jsval

datatype msg_content = Plain jsval | Parts "content_part list"

record message =
  role :: role
  content :: msg_content

record chat_request =
  model :: string
  messages :: "message list"
  stream :: bool

text \<open>
  The argument of \<^verbatim>\<open>res.write\<close> and \<^verbatim>\<open>res.json\<close>. \<open>ChunkData v\<close> is the text
  \<^verbatim>\<open>data: ${JSON.stringify({ chunk: v })}\n\n\<close>, \<open>DoneData\<close> is the literal
  \<^verbatim>\<open>data: {"done": true}\n\n\<close>, \<open>JsonError m\<close> is the body \<^verbatim>\<open>{ error: m }\<close>.
\<close>

datatype payload = ChunkData jsval | DoneData | JsonError string

datatype effect =
    SetStatus nat
  | SendJson payload
  | SetHeader string string
  | CallUpstream chat_request
  | Write payload
  | End
  | LogError string error
  | SendFile string
  | NotFound

subsection \<open>The response object\<close>

record response =
  status :: nat
  headers :: "string \<rightharpoonup> string"
  written :: "payload list"
  ended :: bool

definition fresh_response :: response where
  "fresh_response = \<lparr>status = 200, headers = Map.empty, written = [], ended = False\<rparr>"

text \<open>
  \<^verbatim>\<open>res.setHeader\<close> and \<^verbatim>\<open>res.status\<close> only record what will be sent. \<^verbatim>\<open>res.json\<close>
  sets the content type to JSON unless one is set (the charset Express appends is left
  out), sends the body and ends the response. A sent file and Express's final 404 end
  the response as well; their bodies are outside this development.
\<close>

fun apply_effect :: "response \<Rightarrow> effect \<Rightarrow> response" where
  "apply_effect r (SetStatus n) = r\<lparr>status := n\<rparr>"
| "apply_effect r (SendJson p) =
     r\<lparr>headers := (case headers r ''Content-Type'' of
                      None \<Rightarrow> (headers r)(''Content-Type'' \<mapsto> ''application/json'')
                    | Some t \<Rightarrow> headers r),
       written := written r @ [p], ended := True\<rparr>"
| "apply_effect r (SetHeader k v) = r\<lparr>headers := (headers r)(k \<mapsto> v)\<rparr>"
| "apply_effect r (CallUpstream q) = r"
| "apply_effect r (Write p) = r\<lparr>written := written r @ [p]\<rparr>"
| "apply_effect r End = r\<lparr>ended := True\<rparr>"
| "apply_effect r (LogError m e) = r"
| "apply_effect r (SendFile f) = r\<lparr>ended := True\<rparr>"
| "apply_effect r NotFound = r\<lparr>status := 404, ended := True\<rparr>"

definition response_of :: "effect list \<Rightarrow> response" where
  "response_of es = foldl apply_effect fresh_response es"

text \<open>The provider calls a trace makes, in order.\<close>

fun upstream_calls :: "effect list \<Rightarrow> chat_request list" where
  "upstream_calls [] = []"
| "upstream_calls (CallUpstream q # es) = q # upstream_calls es"
| "upstream_calls (e # es) = upstream_calls es"

subsection \<open>The inbound request\<close>

text \<open>
  The two properties the handler reads from \<^verbatim>\<open>req.body\<close>; a property that is absent
  reads as \<open>JUndefined\<close>.
\<close>

record ask_body =
  question :: jsval
  imageUrl :: jsval

text \<open>
  What the JSON body parser leaves in \<^verbatim>\<open>req.body\<close>: it fails on a body that does not
  parse, it may leave \<^verbatim>\<open>req.body\<close> undefined when it did not parse anything, and
  otherwise there is an object.
\<close>

datatype parsed_body = Malformed | Unparsed | Parsed ask_body

text \<open>
  \<^verbatim>\<open>const { question, imageUrl } = req.body\<close> raises a TypeError when \<^verbatim>\<open>req.body\<close> is
  undefined.
\<close>

fun destructure :: "parsed_body \<Rightarrow> error + ask_body" where
  "destructure (Parsed b) = Inr b"
| "destructure Unparsed = Inl TypeError"
| "destructure Malformed = Inl TypeError"

subsection \<open>The provider's answer\<close>

text \<open>
  A chunk of the provider's stream, as far as \<^verbatim>\<open>chunk.choices[0]?.delta?.content\<close>
  looks into it: \<^verbatim>\<open>choices\<close> may be missing (indexing it then raises), the list may be
  empty, its first element may be null or have no \<^verbatim>\<open>delta\<close>, and a \<^verbatim>\<open>delta\<close> has a
  \<^verbatim>\<open>content\<close> (\<open>JUndefined\<close> when the property is absent).
\<close>

datatype choice = ChoiceNull | ChoiceNoDelta | ChoiceDelta jsval

datatype chunk = NoChoices | Choices "choice list"

fun content_of :: "chunk \<Rightarrow> error + jsval" where
  "content_of NoChoices = Inl TypeError"
| "content_of (Choices []) = Inr JUndefined"
| "content_of (Choices (ChoiceNull # cs)) = Inr JUndefined"
| "content_of (Choices (ChoiceNoDelta # cs)) = Inr JUndefined"
| "content_of (Choices (ChoiceDelta v # cs)) = Inr v"

text \<open>
  What the provider does with one call: the awaited call rejects before any stream
  exists, or it yields a stream, taken as a finite sequence of chunks after which the
  iterator either completes or raises.
\<close>

datatype stream_end = Completes | Throws error

datatype upstream_result = Rejects error | Stream "chunk list" stream_end

subsection \<open>The handler of POST /ask\<close>

definition system_prompt :: string where
  "system_prompt = ''You are a helpful legal assistant. Provide clear, concise, and accurate information. Your answers should be in the same language as the user's question (English, French, or Arabic).''"

definition default_image_prompt :: string where
  "default_image_prompt = ''What is in this image?''"

definition model_name :: string where
  "model_name = ''google/gemini-2.0-flash-exp:free''"

definition build_messages :: "jsval \<Rightarrow> jsval \<Rightarrow> message list" where
  "build_messages q i =
     (if truthy i then
        [\<lparr>role = User,
          content = Parts [TextPart (js_or q (JStr default_image_prompt)), ImageUrlPart i]\<rparr>]
      else
        [\<lparr>role = System, content = Plain (JStr system_prompt)\<rparr>,
         \<lparr>role = User, content = Plain q\<rparr>])"

definition upstream_request :: "ask_body \<Rightarrow> chat_request" where
  "upstream_request b =
     \<lparr>model = model_name, messages = build_messages (question b) (imageUrl b), stream = True\<rparr>"

definition sse_headers :: "effect list" where
  "sse_headers =
     [SetHeader ''Content-Type'' ''text/event-stream'',
      SetHeader ''Cache-Control'' ''no-cache'',
      SetHeader ''Connection'' ''keep-alive'']"

text \<open>The catch block: log the error and end the response.\<close>

definition catch_block :: "error \<Rightarrow> effect list" where
  "catch_block e = [LogError ''Error in /ask streaming route:'' e, End]"

text \<open>
  The \<^verbatim>\<open>for await\<close> loop and what follows it. Reading the content of a chunk may
  raise, and so may the stream instead of yielding its next chunk; both leave the
  loop for the catch block.
\<close>

fun relay :: "chunk list \<Rightarrow> stream_end \<Rightarrow> effect list" where
  "relay [] Completes = [Write DoneData, End]"
| "relay [] (Throws e) = catch_block e"
| "relay (c # cs) fin =
     (case content_of c of
        Inl e \<Rightarrow> catch_block e
      | Inr v \<Rightarrow> (if truthy v then [Write (ChunkData v)] else []) @ relay cs fin)"

definition ask :: "parsed_body \<Rightarrow> upstream_result \<Rightarrow> effect list" where
  "ask body up =
     (case destructure body of
        Inl e \<Rightarrow> catch_block e
      | Inr b \<Rightarrow>
          if \<not> truthy (question b) \<and> \<not> truthy (imageUrl b) then
            [SetStatus 400, SendJson (JsonError ''Question or Image URL is required.'')]
          else
            sse_headers @ [CallUpstream (upstream_request b)] @
            (case up of
               Rejects e \<Rightarrow> catch_block e
             | Stream cs fin \<Rightarrow> relay cs fin))"

subsection \<open>The application\<close>

text \<open>The catch-all error middleware.\<close>

definition error_middleware :: "error \<Rightarrow> effect list" where
  "error_middleware err =
     [LogError ''An unexpected error occurred:'' err,
      SetStatus 500, SendJson (JsonError ''An internal server error occurred.'')]"

datatype http_method = GET | POST | OtherMethod

record http_request =
  verb :: http_method
  path :: string
  body :: parsed_body

text \<open>
  What one middleware or route does with a request: answer it, pass it on, or raise
  an error (thrown, or handed to \<^verbatim>\<open>next\<close>).
\<close>

datatype stage = Responded "effect list" | PassOn | Raised error

definition express_json :: "http_request \<Rightarrow> stage" where
  "express_json rq = (if body rq = Malformed then Raised ParseError else PassOn)"

text \<open>\<^verbatim>\<open>res.sendFile\<close> hands an unreadable file to \<^verbatim>\<open>next\<close> as an error.\<close>

definition get_index :: "bool \<Rightarrow> http_request \<Rightarrow> stage" where
  "get_index readable rq =
     (if verb rq = GET \<and> path rq = ''/'' then
        (if readable then Responded [SendFile ''index.html''] else Raised FileError)
      else PassOn)"

definition post_ask :: "upstream_result \<Rightarrow> http_request \<Rightarrow> stage" where
  "post_ask up rq =
     (if verb rq = POST \<and> path rq = ''/ask'' then Responded (ask (body rq) up) else PassOn)"

text \<open>
  Express runs the stages in the order they were registered; an error skips to the
  error middleware, which is registered last, and a request no stage answers gets
  the final 404.
\<close>

fun run_stages :: "stage list \<Rightarrow> effect list" where
  "run_stages [] = [NotFound]"
| "run_stages (Responded es # ss) = es"
| "run_stages (PassOn # ss) = run_stages ss"
| "run_stages (Raised err # ss) = error_middleware err"

definition stages :: "bool \<Rightarrow> upstream_result \<Rightarrow> http_request \<Rightarrow> stage list" where
  "stages readable up rq = [express_json rq, get_index readable rq, post_ask up rq]"

definition app :: "bool \<Rightarrow> upstream_result \<Rightarrow> http_request \<Rightarrow> effect list" where
  "app readable up rq = run_stages (stages readable up rq)"

subsection \<open>Startup\<close>

text \<open>
  \<^verbatim>\<open>process.env\<close> maps names to strings. The module computes the port, then checks
  the credential, and starts listening at its end.
\<close>

datatype port_arg = PortNum nat | PortStr string

definition port :: "(string \<rightharpoonup> string) \<Rightarrow> port_arg" where
  "port env =
     (case env ''PORT'' of
        None \<Rightarrow> PortNum 3000
      | Some p \<Rightarrow> if p \<noteq> [] then PortStr p else PortNum 3000)"

datatype startup = Fatal string | Listening port_arg

definition startup :: "(string \<rightharpoonup> string) \<Rightarrow> startup" where
  "startup env =
     (case env ''OPENROUTER_API_KEY'' of
        None \<Rightarrow> Fatal ''FATAL ERROR: OPENROUTER_API_KEY environment variable is not set.''
      | Some k \<Rightarrow>
          if k = [] then
            Fatal ''FATAL ERROR: OPENROUTER_API_KEY environment variable is not set.''
          else Listening (port env))"

subsection \<open>Observations on a run\<close>

text \<open>
  A chunk is readable when reading its content does not raise; the fragments of a
  stream that reach the client are the truthy contents of its readable prefix.
\<close>

definition readable_chunk :: "chunk \<Rightarrow> bool" where
  "readable_chunk c = (content_of c \<noteq> Inl TypeError)"

definition text_of :: "chunk \<Rightarrow> jsval" where
  "text_of c = (case content_of c of Inl e \<Rightarrow> JUndefined | Inr v \<Rightarrow> v)"

definition forwarded :: "chunk list \<Rightarrow> jsval list" where
  "forwarded cs = filter truthy (map text_of (takeWhile readable_chunk cs))"

text \<open>The error, if any, that ends the processing of a stream.\<close>

fun stream_error :: "chunk list \<Rightarrow> stream_end \<Rightarrow> error option" where
  "stream_error [] Completes = None"
| "stream_error [] (Throws e) = Some e"
| "stream_error (c # cs) fin =
     (case content_of c of Inl e \<Rightarrow> Some e | Inr v \<Rightarrow> stream_error cs fin)"

fun upstream_error :: "upstream_result \<Rightarrow> error option" where
  "upstream_error (Rejects e) = Some e"
| "upstream_error (Stream cs fin) = stream_error cs fin"

fun upstream_forwarded :: "upstream_result \<Rightarrow> jsval list" where
  "upstream_forwarded (Rejects e) = []"
| "upstream_forwarded (Stream cs fin) = forwarded cs"

text \<open>The error, if any, that reaches the error middleware.\<close>

fun first_raised :: "stage list \<Rightarrow> error option" where
  "first_raised [] = None"
| "first_raised (Responded es # ss) = None"
| "first_raised (PassOn # ss) = first_raised ss"
| "first_raised (Raised err # ss) = Some err"

definition sse_header_map :: "string \<rightharpoonup> string" where
  "sse_header_map =
     [''Content-Type'' \<mapsto> ''text/event-stream'',
      ''Cache-Control'' \<mapsto> ''no-cache'',
      ''Connection'' \<mapsto> ''keep-alive'']"

section \<open>Properties\<close>

subsection \<open>The trace of the relay loop\<close>

lemma content_of_error: "content_of c = Inl e \<Longrightarrow> e = TypeError"
  by (induction c rule: content_of.induct) auto

text \<open>
  The loop writes one event for each forwarded fragment, in order, and then either
  the done marker and the end, or the catch block.
\<close>

lemma relay_trace:
  "relay cs fin = map (\<lambda>v. Write (ChunkData v)) (forwarded cs) @
     (case stream_error cs fin of None \<Rightarrow> [Write DoneData, End] | Some e \<Rightarrow> catch_block e)"
proof (induction cs)
  case Nil
  show ?case by (cases fin) (simp_all add: forwarded_def)
next
  case (Cons c cs)
  show ?case
  proof (cases "content_of c")
    case (Inl e)
    then have "e = TypeError" by (rule content_of_error)
    with Inl show ?thesis by (simp add: forwarded_def readable_chunk_def)
  next
    case (Inr v)
    with Cons show ?thesis by (simp add: forwarded_def readable_chunk_def text_of_def)
  qed
qed

lemma foldl_writes:
  "foldl apply_effect r (map (\<lambda>v. Write (ChunkData v)) vs) =
     r\<lparr>written := written r @ map ChunkData vs\<rparr>"
  by (induction vs arbitrary: r) simp_all

lemma response_prefix:
  "response_of (sse_headers @ [CallUpstream q] @ rest) =
     foldl apply_effect
       \<lparr>status = 200, headers = sse_header_map, written = [], ended = False\<rparr> rest"
  by (simp add: response_of_def sse_headers_def fresh_response_def sse_header_map_def)

lemma response_relay:
  "foldl apply_effect r (relay cs fin) =
     r\<lparr>written := written r @ map ChunkData (forwarded cs) @
          (case stream_error cs fin of None \<Rightarrow> [DoneData] | Some e \<Rightarrow> []), ended := True\<rparr>"
  by (simp add: relay_trace foldl_writes catch_block_def split: option.split)

subsection \<open>A request that passes validation\<close>

lemma ask_valid:
  assumes "truthy (question b) \<or> truthy (imageUrl b)"
  shows "ask (Parsed b) up = sse_headers @ [CallUpstream (upstream_request b)] @
           (case up of Rejects e \<Rightarrow> catch_block e | Stream cs fin \<Rightarrow> relay cs fin)"
  using assms by (auto simp: ask_def)

lemma response_ask_valid:
  assumes "truthy (question b) \<or> truthy (imageUrl b)"
  shows "response_of (ask (Parsed b) up) =
           \<lparr>status = 200, headers = sse_header_map,
            written = map ChunkData (upstream_forwarded up) @
              (case upstream_error up of None \<Rightarrow> [DoneData] | Some e \<Rightarrow> []),
            ended = True\<rparr>"
proof (cases up)
  case (Rejects e)
  show ?thesis
    unfolding ask_valid [OF assms] response_prefix Rejects
    by (simp add: catch_block_def)
next
  case (Stream cs fin)
  show ?thesis
    unfolding ask_valid [OF assms] response_prefix Stream
    by (simp add: response_relay)
qed

lemma forwarded_all_truthy:
  assumes "map content_of cs = map Inr vs" and "list_all truthy vs"
  shows "forwarded cs = vs"
  using assms
proof (induction cs arbitrary: vs)
  case Nil
  then show ?case by (simp add: forwarded_def)
next
  case (Cons c cs)
  then obtain v ws where vs: "vs = v # ws" by (cases vs) auto
  with Cons.prems have c: "content_of c = Inr v" and rest: "map content_of cs = map Inr ws"
    and tv: "truthy v" and tws: "list_all truthy ws" by auto
  from Cons.IH [OF rest tws] have "forwarded cs = ws" .
  then show ?case using c tv vs by (simp add: forwarded_def readable_chunk_def text_of_def)
qed

lemma stream_error_none:
  assumes "map content_of cs = map Inr vs"
  shows "stream_error cs Completes = None"
  using assms by (induction cs arbitrary: vs) auto

subsection \<open>Fragment ordering\<close>

text \<open>
  C1, as the code has it. When the request passes validation, the chunks of the
  provider's stream carry the fragments \<open>vs\<close> in that order, every fragment is non-empty
  (truthy) and the stream completes normally, the handler sets the event-stream headers,
  calls the provider once, writes one event carrying exactly each fragment, in the
  order received, then the done marker, and ends the response: nothing is dropped,
  duplicated or reordered. The claim's three fragments are the case \<open>vs = [a, b, c]\<close>.
\<close>

theorem relay_forwards_nonempty_fragments_in_order:
  assumes "truthy (question b) \<or> truthy (imageUrl b)"
    and "map content_of cs = map Inr vs"
    and "list_all truthy vs"
  shows "ask (Parsed b) (Stream cs Completes) =
           sse_headers @ [CallUpstream (upstream_request b)] @
           map (\<lambda>v. Write (ChunkData v)) vs @ [Write DoneData, End]
         \<and> written (response_of (ask (Parsed b) (Stream cs Completes))) =
             map ChunkData vs @ [DoneData]
         \<and> ended (response_of (ask (Parsed b) (Stream cs Completes)))"
proof -
  have f: "forwarded cs = vs" using assms(2,3) by (rule forwarded_all_truthy)
  have e: "stream_error cs Completes = None" using assms(2) by (rule stream_error_none)
  have "ask (Parsed b) (Stream cs Completes) =
          sse_headers @ [CallUpstream (upstream_request b)] @ relay cs Completes"
    using ask_valid [OF assms(1), of "Stream cs Completes"] by simp
  moreover have "relay cs Completes = map (\<lambda>v. Write (ChunkData v)) vs @ [Write DoneData, End]"
    by (simp add: relay_trace f e)
  moreover have "response_of (ask (Parsed b) (Stream cs Completes)) =
      \<lparr>status = 200, headers = sse_header_map, written = map ChunkData vs @ [DoneData],
       ended = True\<rparr>"
    by (simp add: response_ask_valid [OF assms(1)] f e)
  ultimately show ?thesis by simp
qed

theorem relay_forwards_nonempty_fragments_in_order_witness:
  "truthy (question \<lparr>question = JStr ''q'', imageUrl = JUndefined\<rparr>)
   \<and> list_all truthy [JStr ''a'', JStr ''b'', JStr ''c'']
   \<and> written (response_of (ask (Parsed \<lparr>question = JStr ''q'', imageUrl = JUndefined\<rparr>)
       (Stream [Choices [ChoiceDelta (JStr ''a'')], Choices [ChoiceDelta (JStr ''b'')],
                Choices [ChoiceDelta (JStr ''c'')]] Completes))) =
     [ChunkData (JStr ''a''), ChunkData (JStr ''b''), ChunkData (JStr ''c''), DoneData]
   \<and> ended (response_of (ask (Parsed \<lparr>question = JStr ''q'', imageUrl = JUndefined\<rparr>)
       (Stream [Choices [ChoiceDelta (JStr ''a'')], Choices [ChoiceDelta (JStr ''b'')],
                Choices [ChoiceDelta (JStr ''c'')]] Completes)))"
proof -
  let ?b = "\<lparr>question = JStr ''q'', imageUrl = JUndefined\<rparr>"
  let ?cs = "[Choices [ChoiceDelta (JStr ''a'')], Choices [ChoiceDelta (JStr ''b'')],
              Choices [ChoiceDelta (JStr ''c'')]]"
  let ?vs = "[JStr ''a'', JStr ''b'', JStr ''c'']"
  have valid: "truthy (question ?b) \<or> truthy (imageUrl ?b)" by simp
  have chunks: "map content_of ?cs = map Inr ?vs" by simp
  have nonempty: "list_all truthy ?vs" by simp
  note run = relay_forwards_nonempty_fragments_in_order [OF valid chunks nonempty]
  from run have "written (response_of (ask (Parsed ?b) (Stream ?cs Completes))) =
      map ChunkData ?vs @ [DoneData]"
    by (rule conjunct1 [OF conjunct2])
  moreover from run have "ended (response_of (ask (Parsed ?b) (Stream ?cs Completes)))"
    by (rule conjunct2 [OF conjunct2])
  ultimately show ?thesis by simp
qed

text \<open>
  The claim as stated fails on an empty fragment: of three fragments whose first is
  the empty string, the client receives only the last two and the done marker.
\<close>

theorem empty_fragment_is_dropped:
  "written (response_of (ask (Parsed \<lparr>question = JStr ''q'', imageUrl = JUndefined\<rparr>)
     (Stream [Choices [ChoiceDelta (JStr '''')], Choices [ChoiceDelta (JStr ''b'')],
              Choices [ChoiceDelta (JStr ''c'')]] Completes))) =
     [ChunkData (JStr ''b''), ChunkData (JStr ''c''), DoneData]
   \<and> ChunkData (JStr '''') \<notin> set (written (response_of
       (ask (Parsed \<lparr>question = JStr ''q'', imageUrl = JUndefined\<rparr>)
         (Stream [Choices [ChoiceDelta (JStr '''')], Choices [ChoiceDelta (JStr ''b'')],
                  Choices [ChoiceDelta (JStr ''c'')]] Completes))))"
  by (simp add: ask_def response_of_def fresh_response_def sse_headers_def)

subsection \<open>Validation\<close>

lemma ask_invalid:
  assumes "\<not> truthy (question b)" and "\<not> truthy (imageUrl b)"
  shows "ask (Parsed b) up =
           [SetStatus 400, SendJson (JsonError ''Question or Image URL is required.'')]"
  using assms by (simp add: ask_def)

text \<open>
  When the body is an object and \<open>question\<close> and \<open>imageUrl\<close> are both falsy (absent and
  the empty string among them), the handler does exactly two things: it sets status 400
  and sends the JSON body with the error message. The response is ended with a JSON
  content type, no event-stream header is set and no call to the provider is made,
  whatever the provider would have answered.
\<close>

lemma object_body_without_input_is_rejected_with_400:
  assumes "\<not> truthy (question b)" and "\<not> truthy (imageUrl b)"
  shows "ask (Parsed b) up =
           [SetStatus 400, SendJson (JsonError ''Question or Image URL is required.'')]
         \<and> response_of (ask (Parsed b) up) =
             \<lparr>status = 400, headers = [''Content-Type'' \<mapsto> ''application/json''],
              written = [JsonError ''Question or Image URL is required.''], ended = True\<rparr>
         \<and> upstream_calls (ask (Parsed b) up) = []"
  by (simp add: ask_invalid [OF assms] response_of_def fresh_response_def)

text \<open>
  C3 says that every request in which \<open>question\<close> and \<open>imageUrl\<close> are both empty or
  absent is answered with status 400 and the JSON error body, with no call to the
  provider and no streaming header. The handler misses one such request: when the body
  parser has left \<^verbatim>\<open>req.body\<close> undefined, both fields are absent, but the destructuring
  raises before the validation is reached, and the catch block, written for errors
  after the headers are set, only logs and ends the response. A \<^verbatim>\<open>POST /ask\<close> without a
  parsed body is therefore answered with status 200 and an empty body: no status 400 and
  no JSON error. No header is set and no call to the provider is made.
\<close>

theorem request_without_body_is_answered_200_empty:
  "app True (Stream [Choices [ChoiceDelta (JStr ''a'')]] Completes)
       \<lparr>verb = POST, path = ''/ask'', body = Unparsed\<rparr> =
     [LogError ''Error in /ask streaming route:'' TypeError, End]
   \<and> status (response_of (app True (Stream [Choices [ChoiceDelta (JStr ''a'')]] Completes)
       \<lparr>verb = POST, path = ''/ask'', body = Unparsed\<rparr>)) = 200
   \<and> written (response_of (app True (Stream [Choices [ChoiceDelta (JStr ''a'')]] Completes)
       \<lparr>verb = POST, path = ''/ask'', body = Unparsed\<rparr>)) = []
   \<and> headers (response_of (app True (Stream [Choices [ChoiceDelta (JStr ''a'')]] Completes)
       \<lparr>verb = POST, path = ''/ask'', body = Unparsed\<rparr>)) ''Content-Type'' = None
   \<and> ended (response_of (app True (Stream [Choices [ChoiceDelta (JStr ''a'')]] Completes)
       \<lparr>verb = POST, path = ''/ask'', body = Unparsed\<rparr>))
   \<and> upstream_calls (app True (Stream [Choices [ChoiceDelta (JStr ''a'')]] Completes)
       \<lparr>verb = POST, path = ''/ask'', body = Unparsed\<rparr>) = []"
  by (simp add: app_def stages_def express_json_def get_index_def post_ask_def ask_def
      catch_block_def response_of_def fresh_response_def)

subsection \<open>The messages sent to the provider\<close>

lemma upstream_calls_append:
  "upstream_calls (es @ fs) = upstream_calls es @ upstream_calls fs"
  by (induction es rule: upstream_calls.induct) simp_all

lemma upstream_calls_relay: "upstream_calls (relay cs fin) = []"
proof -
  have "upstream_calls (map (\<lambda>v. Write (ChunkData v)) vs) = []" for vs
    by (induction vs) simp_all
  then show ?thesis
    by (simp add: relay_trace upstream_calls_append catch_block_def split: option.split)
qed

lemma upstream_calls_ask_valid:
  assumes "truthy (question b) \<or> truthy (imageUrl b)"
  shows "upstream_calls (ask (Parsed b) up) = [upstream_request b]"
  by (cases up)
    (simp_all add: ask_valid [OF assms] upstream_calls_append sse_headers_def
      upstream_calls_relay catch_block_def)

text \<open>
  C4. For a non-empty (truthy) question and no \<open>imageUrl\<close> (absent, or falsy in any
  other way), the handler makes one call to the provider, and its message sequence is
  exactly two messages: the system instruction followed by one user message whose
  content is the question.
\<close>

theorem text_only_request_sends_system_then_user:
  assumes "truthy q" and "\<not> truthy i"
  shows "upstream_calls (ask (Parsed \<lparr>question = q, imageUrl = i\<rparr>) up) =
           [\<lparr>model = model_name,
             messages = [\<lparr>role = System, content = Plain (JStr system_prompt)\<rparr>,
                         \<lparr>role = User, content = Plain q\<rparr>],
             stream = True\<rparr>]"
proof -
  have "truthy (question \<lparr>question = q, imageUrl = i\<rparr>)
      \<or> truthy (imageUrl \<lparr>question = q, imageUrl = i\<rparr>)"
    using assms(1) by simp
  then show ?thesis using assms(2)
    by (simp add: upstream_calls_ask_valid upstream_request_def build_messages_def)
qed

theorem text_only_request_sends_system_then_user_witness:
  "truthy (JStr ''What is a contract?'') \<and> \<not> truthy JUndefined
   \<and> upstream_calls (ask (Parsed \<lparr>question = JStr ''What is a contract?'', imageUrl = JUndefined\<rparr>)
       (Stream [] Completes)) =
       [\<lparr>model = model_name,
         messages = [\<lparr>role = System, content = Plain (JStr system_prompt)\<rparr>,
                     \<lparr>role = User, content = Plain (JStr ''What is a contract?'')\<rparr>],
         stream = True\<rparr>]"
proof -
  have q: "truthy (JStr ''What is a contract?'')" by simp
  have i: "\<not> truthy JUndefined" by simp
  from q i text_only_request_sends_system_then_user [OF q i, of "Stream [] Completes"]
  show ?thesis by (intro conjI)
qed

text \<open>
  C5, as the code has it. For a non-empty (truthy) \<open>imageUrl\<close>, the handler makes one
  call to the provider, and its message sequence is one user message of two parts: a
  text part that is the question when the question is non-empty (truthy) and the fixed
  default prompt otherwise, and an image part referencing \<open>imageUrl\<close>.
\<close>

theorem image_request_sends_one_user_message:
  assumes "truthy i"
  shows "upstream_calls (ask (Parsed \<lparr>question = q, imageUrl = i\<rparr>) up) =
           [\<lparr>model = model_name,
             messages = [\<lparr>role = User,
                          content = Parts [TextPart (if truthy q then q
                                                     else JStr ''What is in this image?''),
                                           ImageUrlPart i]\<rparr>],
             stream = True\<rparr>]"
proof -
  have "truthy (question \<lparr>question = q, imageUrl = i\<rparr>)
      \<or> truthy (imageUrl \<lparr>question = q, imageUrl = i\<rparr>)"
    using assms by simp
  then show ?thesis using assms
    by (simp add: upstream_calls_ask_valid upstream_request_def build_messages_def js_or_def
        default_image_prompt_def)
qed

theorem image_request_sends_one_user_message_witness:
  "truthy (JStr ''http://x/i.png'')
   \<and> upstream_calls (ask (Parsed \<lparr>question = JUndefined, imageUrl = JStr ''http://x/i.png''\<rparr>)
       (Stream [] Completes)) =
       [\<lparr>model = model_name,
         messages = [\<lparr>role = User,
                      content = Parts [TextPart (JStr ''What is in this image?''),
                                       ImageUrlPart (JStr ''http://x/i.png'')]\<rparr>],
         stream = True\<rparr>]"
proof -
  have i: "truthy (JStr ''http://x/i.png'')" by simp
  from image_request_sends_one_user_message [OF i, of JUndefined "Stream [] Completes"]
  have "upstream_calls (ask (Parsed \<lparr>question = JUndefined, imageUrl = JStr ''http://x/i.png''\<rparr>)
       (Stream [] Completes)) =
       [\<lparr>model = model_name,
         messages = [\<lparr>role = User,
                      content = Parts [TextPart (JStr ''What is in this image?''),
                                       ImageUrlPart (JStr ''http://x/i.png'')]\<rparr>],
         stream = True\<rparr>]"
    by simp
  with i show ?thesis by (rule conjI)
qed

text \<open>
  The claim as stated fails where a field is present and empty. With an empty question
  beside an image, the text part is the default prompt and not the question; with an
  empty \<open>imageUrl\<close> beside a question, the messages are the text-only pair.
\<close>

theorem present_but_empty_fields_are_treated_as_absent:
  "upstream_calls (ask (Parsed \<lparr>question = JStr '''', imageUrl = JStr ''http://x/i.png''\<rparr>)
     (Stream [] Completes)) =
     [\<lparr>model = model_name,
       messages = [\<lparr>role = User,
                    content = Parts [TextPart (JStr ''What is in this image?''),
                                     ImageUrlPart (JStr ''http://x/i.png'')]\<rparr>],
       stream = True\<rparr>]
   \<and> upstream_calls (ask (Parsed \<lparr>question = JStr ''q'', imageUrl = JStr ''''\<rparr>)
       (Stream [] Completes)) =
     [\<lparr>model = model_name,
       messages = [\<lparr>role = System, content = Plain (JStr system_prompt)\<rparr>,
                   \<lparr>role = User, content = Plain (JStr ''q'')\<rparr>],
       stream = True\<rparr>]"
  by (simp add: ask_def sse_headers_def upstream_request_def build_messages_def js_or_def
      default_image_prompt_def)

subsection \<open>Failures of the provider\<close>

lemma post_ask_route:
  "app readable up \<lparr>verb = POST, path = ''/ask'', body = Parsed b\<rparr> = ask (Parsed b) up"
  by (simp add: app_def stages_def express_json_def get_index_def post_ask_def)

text \<open>
  C2, as the code has it. When the request passes validation and the call to the
  provider rejects before any stream exists, the event-stream headers are already set:
  the handler logs the error and ends the response. The client receives status 200 with
  the event-stream content type and an empty body: no JSON error payload, no server-error
  status, no event, no done marker. The request is answered by the route itself, so the
  error middleware is not involved.
\<close>

theorem upstream_rejection_ends_empty_event_stream:
  assumes "truthy (question b) \<or> truthy (imageUrl b)"
  shows "ask (Parsed b) (Rejects e) =
           sse_headers @
           [CallUpstream (upstream_request b),
            LogError ''Error in /ask streaming route:'' e, End]
         \<and> response_of (ask (Parsed b) (Rejects e)) =
             \<lparr>status = 200, headers = sse_header_map, written = [], ended = True\<rparr>
         \<and> app readable (Rejects e) \<lparr>verb = POST, path = ''/ask'', body = Parsed b\<rparr> =
             ask (Parsed b) (Rejects e)"
proof -
  have "ask (Parsed b) (Rejects e) =
      sse_headers @
      [CallUpstream (upstream_request b), LogError ''Error in /ask streaming route:'' e, End]"
    by (simp add: ask_valid [OF assms] catch_block_def)
  moreover have "response_of (ask (Parsed b) (Rejects e)) =
      \<lparr>status = 200, headers = sse_header_map, written = [], ended = True\<rparr>"
    by (simp add: response_ask_valid [OF assms])
  moreover have "app readable (Rejects e) \<lparr>verb = POST, path = ''/ask'', body = Parsed b\<rparr> =
      ask (Parsed b) (Rejects e)"
    by (rule post_ask_route)
  ultimately show ?thesis by (intro conjI)
qed

theorem upstream_rejection_ends_empty_event_stream_witness:
  "(truthy (question \<lparr>question = JStr ''q'', imageUrl = JUndefined\<rparr>)
      \<or> truthy (imageUrl \<lparr>question = JStr ''q'', imageUrl = JUndefined\<rparr>))
   \<and> response_of (ask (Parsed \<lparr>question = JStr ''q'', imageUrl = JUndefined\<rparr>)
       (Rejects (UpstreamError ''connect''))) =
       \<lparr>status = 200, headers = sse_header_map, written = [], ended = True\<rparr>"
proof -
  let ?b = "\<lparr>question = JStr ''q'', imageUrl = JUndefined\<rparr>"
  have valid: "truthy (question ?b) \<or> truthy (imageUrl ?b)" by simp
  from upstream_rejection_ends_empty_event_stream [OF valid, of "UpstreamError ''connect''" True]
  have "response_of (ask (Parsed ?b) (Rejects (UpstreamError ''connect''))) =
      \<lparr>status = 200, headers = sse_header_map, written = [], ended = True\<rparr>"
    by (rule conjunct1 [OF conjunct2])
  with valid show ?thesis by (rule conjI)
qed

text \<open>
  The claim as stated fails: on a rejected call the response has status 200, the
  event-stream content type and nothing written.
\<close>

theorem upstream_rejection_is_not_a_json_5xx:
  "status (response_of (ask (Parsed \<lparr>question = JStr ''q'', imageUrl = JUndefined\<rparr>)
     (Rejects (UpstreamError ''connect'')))) = 200
   \<and> written (response_of (ask (Parsed \<lparr>question = JStr ''q'', imageUrl = JUndefined\<rparr>)
       (Rejects (UpstreamError ''connect'')))) = []
   \<and> headers (response_of (ask (Parsed \<lparr>question = JStr ''q'', imageUrl = JUndefined\<rparr>)
       (Rejects (UpstreamError ''connect'')))) ''Content-Type'' = Some ''text/event-stream''"
  by (simp add: ask_def response_of_def fresh_response_def sse_headers_def catch_block_def)

text \<open>
  C6. When the request passes validation and an error occurs after the event-stream
  headers are set (the call rejects, the stream raises instead of yielding, or a chunk
  cannot be read), the handler ends with the catch block: the response is ended, what
  was written is exactly one event for each fragment forwarded before the error, in
  order, and so contains neither the done marker nor a JSON error payload; the status
  stays 200.
\<close>

theorem error_after_streaming_closes_without_done:
  assumes "truthy (question b) \<or> truthy (imageUrl b)"
    and "upstream_error up = Some e"
  shows "written (response_of (ask (Parsed b) up)) = map ChunkData (upstream_forwarded up)
         \<and> DoneData \<notin> set (written (response_of (ask (Parsed b) up)))
         \<and> (\<forall>m. JsonError m \<notin> set (written (response_of (ask (Parsed b) up))))
         \<and> status (response_of (ask (Parsed b) up)) = 200
         \<and> ended (response_of (ask (Parsed b) up))
         \<and> (\<exists>pre. ask (Parsed b) up = pre @ catch_block e)"
proof -
  have r: "response_of (ask (Parsed b) up) =
      \<lparr>status = 200, headers = sse_header_map,
       written = map ChunkData (upstream_forwarded up), ended = True\<rparr>"
    using assms(2) by (simp add: response_ask_valid [OF assms(1)])
  have "\<exists>pre. ask (Parsed b) up = pre @ catch_block e"
  proof (cases up)
    case (Rejects e')
    with assms(2) have "ask (Parsed b) up =
        (sse_headers @ [CallUpstream (upstream_request b)]) @ catch_block e"
      by (simp add: ask_valid [OF assms(1)])
    then show ?thesis by blast
  next
    case (Stream cs fin)
    with assms(2) have "ask (Parsed b) up =
        (sse_headers @ [CallUpstream (upstream_request b)] @
         map (\<lambda>v. Write (ChunkData v)) (forwarded cs)) @ catch_block e"
      by (simp add: ask_valid [OF assms(1)] relay_trace)
    then show ?thesis by blast
  qed
  with r show ?thesis by auto
qed

theorem error_after_streaming_closes_without_done_witness:
  "upstream_error (Stream [Choices [ChoiceDelta (JStr ''a'')], Choices [ChoiceDelta (JStr ''b'')]]
      (Throws (UpstreamError ''dropped''))) = Some (UpstreamError ''dropped'')
   \<and> written (response_of (ask (Parsed \<lparr>question = JStr ''q'', imageUrl = JUndefined\<rparr>)
       (Stream [Choices [ChoiceDelta (JStr ''a'')], Choices [ChoiceDelta (JStr ''b'')]]
          (Throws (UpstreamError ''dropped''))))) =
       [ChunkData (JStr ''a''), ChunkData (JStr ''b'')]"
proof -
  let ?b = "\<lparr>question = JStr ''q'', imageUrl = JUndefined\<rparr>"
  let ?up = "Stream [Choices [ChoiceDelta (JStr ''a'')], Choices [ChoiceDelta (JStr ''b'')]]
      (Throws (UpstreamError ''dropped''))"
  have valid: "truthy (question ?b) \<or> truthy (imageUrl ?b)" by simp
  have err: "upstream_error ?up = Some (UpstreamError ''dropped'')" by simp
  from error_after_streaming_closes_without_done [OF valid err]
  have "written (response_of (ask (Parsed ?b) ?up)) = map ChunkData (upstream_forwarded ?up)"
    by (rule conjunct1)
  also have "upstream_forwarded ?up = [JStr ''a'', JStr ''b'']"
    by (simp add: forwarded_def readable_chunk_def text_of_def)
  finally show ?thesis using err by simp
qed

text \<open>
  C10. When the request passes validation, the three event-stream headers are set
  before the call to the provider, which is the only call; whatever the provider does,
  the response ends with exactly these headers, so its content type is the event-stream
  one.
\<close>

theorem event_stream_headers_precede_upstream_call:
  assumes "truthy (question b) \<or> truthy (imageUrl b)"
  shows "(\<exists>rest. ask (Parsed b) up = sse_headers @ CallUpstream (upstream_request b) # rest
            \<and> upstream_calls rest = [])
         \<and> headers (response_of (ask (Parsed b) up)) = sse_header_map
         \<and> headers (response_of (ask (Parsed b) up)) ''Content-Type'' = Some ''text/event-stream''
         \<and> ended (response_of (ask (Parsed b) up))"
proof -
  let ?rest = "case up of Rejects e \<Rightarrow> catch_block e | Stream cs fin \<Rightarrow> relay cs fin"
  have "ask (Parsed b) up = sse_headers @ CallUpstream (upstream_request b) # ?rest"
    by (simp add: ask_valid [OF assms])
  moreover have "upstream_calls ?rest = []"
    by (cases up) (simp_all add: catch_block_def upstream_calls_relay)
  ultimately have "\<exists>rest. ask (Parsed b) up = sse_headers @ CallUpstream (upstream_request b) # rest
      \<and> upstream_calls rest = []"
    by blast
  moreover have "sse_header_map ''Content-Type'' = Some ''text/event-stream''"
    by (simp add: sse_header_map_def)
  ultimately show ?thesis by (simp add: response_ask_valid [OF assms])
qed

theorem event_stream_headers_precede_upstream_call_witness:
  "(truthy (question \<lparr>question = JStr ''q'', imageUrl = JUndefined\<rparr>)
      \<or> truthy (imageUrl \<lparr>question = JStr ''q'', imageUrl = JUndefined\<rparr>))
   \<and> headers (response_of (ask (Parsed \<lparr>question = JStr ''q'', imageUrl = JUndefined\<rparr>)
       (Rejects TypeError))) ''Content-Type'' = Some ''text/event-stream''"
proof -
  let ?b = "\<lparr>question = JStr ''q'', imageUrl = JUndefined\<rparr>"
  have valid: "truthy (question ?b) \<or> truthy (imageUrl ?b)" by simp
  from event_stream_headers_precede_upstream_call [OF valid, of "Rejects TypeError"]
  have "headers (response_of (ask (Parsed ?b) (Rejects TypeError))) ''Content-Type'' =
      Some ''text/event-stream''"
    by (rule conjunct1 [OF conjunct2 [OF conjunct2]])
  with valid show ?thesis by (rule conjI)
qed

subsection \<open>Chunks without text\<close>

lemma forwarded_append:
  "forwarded (pre @ post) =
     forwarded pre @ (if list_all readable_chunk pre then forwarded post else [])"
  by (induction pre) (simp_all add: forwarded_def)

lemma stream_error_append:
  "stream_error (pre @ post) fin =
     (if list_all readable_chunk pre then stream_error post fin else stream_error pre fin)"
proof (induction pre)
  case Nil
  show ?case by simp
next
  case (Cons c pre)
  show ?case
  proof (cases "content_of c")
    case (Inl e)
    then have "e = TypeError" by (rule content_of_error)
    with Inl show ?thesis by (simp add: readable_chunk_def)
  next
    case (Inr v)
    with Cons show ?thesis by (simp add: readable_chunk_def)
  qed
qed

lemma relay_skips_falsy:
  assumes "content_of c = Inr v" and "\<not> truthy v"
  shows "relay (pre @ c # post) fin = relay (pre @ post) fin"
proof -
  from assms have "forwarded (c # post) = forwarded post"
    by (simp add: forwarded_def readable_chunk_def text_of_def)
  moreover from assms have "stream_error (c # post) fin = stream_error post fin"
    by simp
  ultimately show ?thesis
    by (simp only: relay_trace forwarded_append stream_error_append)
qed

lemma forwarded_truthy_content:
  assumes "w \<in> set (forwarded cs)"
  shows "truthy w \<and> Inr w \<in> content_of ` set cs"
proof -
  from assms have t: "truthy w" and "w \<in> text_of ` set (takeWhile readable_chunk cs)"
    by (auto simp: forwarded_def)
  then obtain c where c: "c \<in> set (takeWhile readable_chunk cs)" and w: "w = text_of c"
    by blast
  from c have "c \<in> set cs" and "readable_chunk c"
    by (auto dest: set_takeWhileD)
  then have "content_of c = Inr w"
    using w content_of_error [of c]
    by (cases "content_of c") (auto simp: readable_chunk_def text_of_def)
  with \<open>c \<in> set cs\<close> have "Inr w \<in> content_of ` set cs"
    by (metis imageI)
  with t show ?thesis by simp
qed

text \<open>
  C9. A chunk whose first choice's delta content is falsy (absent and the empty string
  are the cases the claim names) leaves no trace: the handler does with the stream that
  holds it exactly what it does with the stream without it. And every chunk event the
  client receives carries a truthy (for text: non-empty) content of some chunk of the
  stream.
\<close>

theorem falsy_content_emits_no_event:
  assumes "content_of c = Inr v" and "\<not> truthy v"
  shows "ask bd (Stream (pre @ c # post) fin) = ask bd (Stream (pre @ post) fin)
         \<and> (\<forall>w. ChunkData w \<in> set (written (response_of (ask bd (Stream (pre @ c # post) fin))))
               \<longrightarrow> truthy w \<and> Inr w \<in> content_of ` set (pre @ c # post))"
proof -
  have same: "ask bd (Stream (pre @ c # post) fin) = ask bd (Stream (pre @ post) fin)"
    by (simp add: ask_def relay_skips_falsy [OF assms] split: sum.split)
  have only: "truthy w \<and> Inr w \<in> content_of ` set cs"
    if w: "ChunkData w \<in> set (written (response_of (ask bd (Stream cs fin))))" for w cs
  proof (cases "destructure bd")
    case (Inl e)
    with w show ?thesis
      by (simp add: ask_def catch_block_def response_of_def fresh_response_def)
  next
    case (Inr b)
    then have bd: "bd = Parsed b" by (cases bd) simp_all
    show ?thesis
    proof (cases "truthy (question b) \<or> truthy (imageUrl b)")
      case True
      from w have "w \<in> set (forwarded cs)"
        unfolding bd response_ask_valid [OF True]
        by (auto split: option.splits)
      then show ?thesis by (rule forwarded_truthy_content)
    next
      case False
      then have "\<not> truthy (question b)" and "\<not> truthy (imageUrl b)" by simp_all
      from w show ?thesis
        unfolding bd ask_invalid [OF \<open>\<not> truthy (question b)\<close> \<open>\<not> truthy (imageUrl b)\<close>]
        by (simp add: response_of_def fresh_response_def)
    qed
  qed
  from same only show ?thesis by blast
qed

theorem falsy_content_emits_no_event_witness:
  "content_of (Choices [ChoiceDelta (JStr '''')]) = Inr (JStr '''')
   \<and> \<not> truthy (JStr '''')
   \<and> ask (Parsed \<lparr>question = JStr ''q'', imageUrl = JUndefined\<rparr>)
       (Stream [Choices [ChoiceDelta (JStr ''a'')], Choices [ChoiceDelta (JStr '''')],
                Choices [ChoiceDelta (JStr ''b'')]] Completes) =
     ask (Parsed \<lparr>question = JStr ''q'', imageUrl = JUndefined\<rparr>)
       (Stream [Choices [ChoiceDelta (JStr ''a'')], Choices [ChoiceDelta (JStr ''b'')]] Completes)"
proof -
  have c: "content_of (Choices [ChoiceDelta (JStr '''')]) = Inr (JStr '''')" by simp
  have f: "\<not> truthy (JStr '''')" by simp
  from falsy_content_emits_no_event [OF c f,
      of "Parsed \<lparr>question = JStr ''q'', imageUrl = JUndefined\<rparr>"
         "[Choices [ChoiceDelta (JStr ''a'')]]" "[Choices [ChoiceDelta (JStr ''b'')]]" Completes]
  have "ask (Parsed \<lparr>question = JStr ''q'', imageUrl = JUndefined\<rparr>)
       (Stream ([Choices [ChoiceDelta (JStr ''a'')]] @ Choices [ChoiceDelta (JStr '''')] #
                [Choices [ChoiceDelta (JStr ''b'')]]) Completes) =
     ask (Parsed \<lparr>question = JStr ''q'', imageUrl = JUndefined\<rparr>)
       (Stream ([Choices [ChoiceDelta (JStr ''a'')]] @ [Choices [ChoiceDelta (JStr ''b'')]]) Completes)"
    by (rule conjunct1)
  with c f show ?thesis by simp
qed

subsection \<open>The error middleware\<close>

lemma run_stages_raised:
  "first_raised ss = Some err \<Longrightarrow> run_stages ss = error_middleware err"
  by (induction ss rule: first_raised.induct) simp_all

text \<open>
  C8. When a stage of the application raises an error that no route handler catches
  (the body parser on a body that does not parse, the static page on an unreadable
  file), the request is answered by the error middleware: it logs the error and sends
  status 500 with the JSON body \<^verbatim>\<open>{ error: 'An internal server error occurred.' }\<close>.
\<close>

theorem unhandled_error_answered_with_json_500:
  assumes "first_raised (stages readable up rq) = Some err"
  shows "app readable up rq = error_middleware err
         \<and> response_of (app readable up rq) =
             \<lparr>status = 500, headers = [''Content-Type'' \<mapsto> ''application/json''],
              written = [JsonError ''An internal server error occurred.''], ended = True\<rparr>"
proof -
  have "app readable up rq = error_middleware err"
    unfolding app_def using assms by (rule run_stages_raised)
  then show ?thesis
    by (simp add: error_middleware_def response_of_def fresh_response_def)
qed

theorem unhandled_error_answered_with_json_500_witness:
  "first_raised (stages True (Stream [] Completes)
       \<lparr>verb = POST, path = ''/ask'', body = Malformed\<rparr>) = Some ParseError
   \<and> response_of (app True (Stream [] Completes)
       \<lparr>verb = POST, path = ''/ask'', body = Malformed\<rparr>) =
       \<lparr>status = 500, headers = [''Content-Type'' \<mapsto> ''application/json''],
        written = [JsonError ''An internal server error occurred.''], ended = True\<rparr>"
proof -
  have r: "first_raised (stages True (Stream [] Completes)
       \<lparr>verb = POST, path = ''/ask'', body = Malformed\<rparr>) = Some ParseError"
    by (simp add: stages_def express_json_def)
  from unhandled_error_answered_with_json_500 [OF r]
  have "response_of (app True (Stream [] Completes)
       \<lparr>verb = POST, path = ''/ask'', body = Malformed\<rparr>) =
       \<lparr>status = 500, headers = [''Content-Type'' \<mapsto> ''application/json''],
        written = [JsonError ''An internal server error occurred.''], ended = True\<rparr>"
    by (rule conjunct2)
  with r show ?thesis by (rule conjI)
qed

subsection \<open>Startup\<close>

text \<open>
  C7, as the code has it. The process refuses to start, with the fatal error, when the
  credential variable is absent or empty; when it is set to a non-empty value the
  process listens on the port computed from the environment, which is the value of
  \<^verbatim>\<open>PORT\<close> when that is set and non-empty, and 3000 when it is absent or empty.
\<close>

theorem startup_needs_nonempty_credential:
  "(env ''OPENROUTER_API_KEY'' = None \<or> env ''OPENROUTER_API_KEY'' = Some [] \<longrightarrow>
      startup env =
        Fatal ''FATAL ERROR: OPENROUTER_API_KEY environment variable is not set.'')
   \<and> (env ''OPENROUTER_API_KEY'' = Some k \<and> k \<noteq> [] \<longrightarrow> startup env = Listening (port env))
   \<and> (env ''PORT'' = None \<longrightarrow> port env = PortNum 3000)
   \<and> (env ''PORT'' = Some [] \<longrightarrow> port env = PortNum 3000)
   \<and> (env ''PORT'' = Some p \<and> p \<noteq> [] \<longrightarrow> port env = PortStr p)"
  by (auto simp: startup_def port_def)

theorem startup_needs_nonempty_credential_witness:
  "startup Map.empty =
     Fatal ''FATAL ERROR: OPENROUTER_API_KEY environment variable is not set.''
   \<and> startup [''OPENROUTER_API_KEY'' \<mapsto> ''sk-1''] = Listening (PortNum 3000)
   \<and> startup [''OPENROUTER_API_KEY'' \<mapsto> ''sk-1'', ''PORT'' \<mapsto> ''8080''] =
       Listening (PortStr ''8080'')
   \<and> startup [''OPENROUTER_API_KEY'' \<mapsto> ''sk-1'', ''PORT'' \<mapsto> ''''] =
       Listening (PortNum 3000)"
proof -
  let ?e1 = "[''OPENROUTER_API_KEY'' \<mapsto> ''sk-1'']"
  let ?e2 = "[''OPENROUTER_API_KEY'' \<mapsto> ''sk-1'', ''PORT'' \<mapsto> ''8080'']"
  let ?e3 = "[''OPENROUTER_API_KEY'' \<mapsto> ''sk-1'', ''PORT'' \<mapsto> '''']"
  from startup_needs_nonempty_credential [of Map.empty]
  have a: "startup Map.empty =
      Fatal ''FATAL ERROR: OPENROUTER_API_KEY environment variable is not set.''"
    by simp
  from startup_needs_nonempty_credential [of ?e1 "''sk-1''"]
  have b: "startup ?e1 = Listening (PortNum 3000)"
    by simp
  from startup_needs_nonempty_credential [of ?e2 "''sk-1''" "''8080''"]
  have c: "startup ?e2 = Listening (PortStr ''8080'')"
    by simp
  from startup_needs_nonempty_credential [of ?e3 "''sk-1''"]
  have d: "startup ?e3 = Listening (PortNum 3000)"
    by simp
  from a b c d show ?thesis by (intro conjI)
qed

text \<open>
  The claim as stated fails where the credential variable is present and empty: the
  process raises the fatal error although the variable is set.
\<close>

theorem empty_credential_refuses_to_start:
  "map_of [(''OPENROUTER_API_KEY'', '''')] ''OPENROUTER_API_KEY'' = Some ''''
   \<and> startup (map_of [(''OPENROUTER_API_KEY'', '''')]) =
       Fatal ''FATAL ERROR: OPENROUTER_API_KEY environment variable is not set.''"
  by (simp add: startup_def)

end
